theory Spec2Isabelle
  imports Main
begin

section \<open>Data model\<close>

text \<open>
  The program validates one in-memory Python dictionary \<^verbatim>\<open>data\<close>. A dictionary
  subscript \<^verbatim>\<open>d[k]\<close> raises \<^verbatim>\<open>KeyError\<close> when the key is absent, so every key
  of the dictionary is an optional field: \<open>None\<close> is "the key is absent". The values
  have the types of the sample record of the program: an integer, lists of course names,
  a slot dictionary and a list of slot dictionaries.
\<close>

record slot =
  hari :: "string option"
  jam :: "string option"

record student_data =
  sks :: "int option"
  prasyarat :: "string list option"
  sudah_lulus :: "string list option"
  jadwal :: "slot option"
  jadwal_terambil :: "slot list option"

datatype error = KeyError string

text \<open>
  A call of \<^verbatim>\<open>LOGGER.info\<close>, \<^verbatim>\<open>LOGGER.warning\<close> or \<^verbatim>\<open>LOGGER.error\<close> emits
  one log record: the level, the format string and the arguments, as the call passes them.
\<close>

datatype level = INFO | WARNING | ERROR

datatype log_arg = IntArg int | ListArg "string list"

type_synonym log_record = "level \<times> string \<times> log_arg list"

text \<open>The three classes that implement \<^verbatim>\<open>IValidationRule\<close>; \<open>max_sks\<close> is the
  attribute set by \<^verbatim>\<open>SksLimitRule.__init__\<close>.\<close>

datatype IValidationRule =
    SksLimitRule (max_sks: int)
  | PrerequisiteRule
  | JadwalBentrokRule

text \<open>
  What a call can read and change: the dictionary \<open>data\<close> (shared with the caller, so a
  callee could mutate it), the records emitted to the logger so far, and \<open>calls\<close>, the
  rules whose \<^verbatim>\<open>validate\<close> method \<^verbatim>\<open>RegistrationService.validate\<close> has called so
  far, in call order. \<open>calls\<close> is a trace of call events, not a variable of the program.
\<close>

record world =
  data :: student_data
  logs :: "log_record list"
  calls :: "IValidationRule list"

definition LOGGER_info :: "string \<Rightarrow> log_arg list \<Rightarrow> world \<Rightarrow> world" where
  "LOGGER_info msg args w = w\<lparr>logs := logs w @ [(INFO, msg, args)]\<rparr>"

definition LOGGER_warning :: "string \<Rightarrow> log_arg list \<Rightarrow> world \<Rightarrow> world" where
  "LOGGER_warning msg args w = w\<lparr>logs := logs w @ [(WARNING, msg, args)]\<rparr>"

definition LOGGER_error :: "string \<Rightarrow> log_arg list \<Rightarrow> world \<Rightarrow> world" where
  "LOGGER_error msg args w = w\<lparr>logs := logs w @ [(ERROR, msg, args)]\<rparr>"

section \<open>The rules\<close>

text \<open>\<^verbatim>\<open>SksLimitRule.validate\<close>: the result is \<open>Inl\<close> of the exception raised, or
  \<open>Inr\<close> of the boolean returned.\<close>

definition SksLimitRule_validate :: "int \<Rightarrow> world \<Rightarrow> (error + bool) \<times> world" where
  "SksLimitRule_validate limit w =
     (case sks (data w) of
        None \<Rightarrow> (Inl (KeyError ''sks''), w)
      | Some n \<Rightarrow>
          if n \<le> limit
          then (Inr True,
                LOGGER_info ''SKS %s tidak melebihi batas %s.'' [IntArg n, IntArg limit] w)
          else (Inr False,
                LOGGER_error ''SKS %s melebihi batas maksimum %s.'' [IntArg n, IntArg limit] w))"

text \<open>
  The list comprehension of \<^verbatim>\<open>PrerequisiteRule.validate\<close>, over the courses of
  \<^verbatim>\<open>data["prasyarat"]\<close> still to visit. The condition
  \<^verbatim>\<open>course not in data["sudah_lulus"]\<close> is evaluated once per course, so the key
  \<^verbatim>\<open>sudah_lulus\<close> is looked up only when there is a course.
\<close>

fun missing_courses :: "student_data \<Rightarrow> string list \<Rightarrow> error + string list" where
  "missing_courses d [] = Inr []"
| "missing_courses d (course # rest) =
     (case sudah_lulus d of
        None \<Rightarrow> Inl (KeyError ''sudah_lulus'')
      | Some passed \<Rightarrow>
          (case missing_courses d rest of
             Inl e \<Rightarrow> Inl e
           | Inr ms \<Rightarrow> Inr (if course \<notin> set passed then course # ms else ms)))"

definition PrerequisiteRule_validate :: "world \<Rightarrow> (error + bool) \<times> world" where
  "PrerequisiteRule_validate w =
     (case prasyarat (data w) of
        None \<Rightarrow> (Inl (KeyError ''prasyarat''), w)
      | Some courses \<Rightarrow>
          (case missing_courses (data w) courses of
             Inl e \<Rightarrow> (Inl e, w)
           | Inr missing \<Rightarrow>
               if missing = []
               then (Inr True, LOGGER_info ''Semua prasyarat telah terpenuhi.'' [] w)
               else (Inr False,
                     LOGGER_warning ''Prasyarat belum terpenuhi: %s'' [ListArg missing] w)))"

text \<open>
  The \<^verbatim>\<open>for\<close> loop of \<^verbatim>\<open>JadwalBentrokRule.validate\<close> over the items still to
  visit: \<open>Inr True\<close> when the loop leaves through its \<^verbatim>\<open>return False\<close> (a clash was
  found), \<open>Inr False\<close> when it runs to its end. Python's \<^verbatim>\<open>and\<close> evaluates
  \<^verbatim>\<open>item["jam"]\<close> only when the days are equal.
\<close>

fun bentrok :: "string \<Rightarrow> string \<Rightarrow> slot list \<Rightarrow> error + bool" where
  "bentrok h j [] = Inr False"
| "bentrok h j (item # rest) =
     (case hari item of
        None \<Rightarrow> Inl (KeyError ''hari'')
      | Some ih \<Rightarrow>
          if ih = h
          then (case jam item of
                  None \<Rightarrow> Inl (KeyError ''jam'')
                | Some ij \<Rightarrow> if ij = j then Inr True else bentrok h j rest)
          else bentrok h j rest)"

definition JadwalBentrokRule_validate :: "world \<Rightarrow> (error + bool) \<times> world" where
  "JadwalBentrokRule_validate w =
     (case jadwal (data w) of
        None \<Rightarrow> (Inl (KeyError ''jadwal''), w)
      | Some jd \<Rightarrow>
          (case hari jd of
             None \<Rightarrow> (Inl (KeyError ''hari''), w)
           | Some h \<Rightarrow>
               (case jam jd of
                  None \<Rightarrow> (Inl (KeyError ''jam''), w)
                | Some j \<Rightarrow>
                    (case jadwal_terambil (data w) of
                       None \<Rightarrow> (Inl (KeyError ''jadwal_terambil''), w)
                     | Some items \<Rightarrow>
                         (case bentrok h j items of
                            Inl e \<Rightarrow> (Inl e, w)
                          | Inr clash \<Rightarrow>
                              if clash
                              then (Inr False,
                                    LOGGER_error ''Jadwal bentrok dengan mata kuliah lain!'' [] w)
                              else (Inr True,
                                    LOGGER_info ''Tidak ada bentrok jadwal.'' [] w))))))"

text \<open>Dynamic dispatch of \<^verbatim>\<open>rule.validate(data)\<close> on the class of the rule.\<close>

fun rule_validate :: "IValidationRule \<Rightarrow> world \<Rightarrow> (error + bool) \<times> world" where
  "rule_validate (SksLimitRule limit) w = SksLimitRule_validate limit w"
| "rule_validate PrerequisiteRule w = PrerequisiteRule_validate w"
| "rule_validate JadwalBentrokRule w = JadwalBentrokRule_validate w"

section \<open>The registration service\<close>

text \<open>
  The loop of \<^verbatim>\<open>RegistrationService.validate\<close> over the rules still to run. Each
  iteration calls the rule (the call is appended to \<open>calls\<close>); an exception of the rule
  is not caught and leaves the loop with it.
\<close>

fun run_rules :: "IValidationRule list \<Rightarrow> world \<Rightarrow> (error + bool) \<times> world" where
  "run_rules [] w = (Inr True, LOGGER_info ''Registrasi berhasil.'' [] w)"
| "run_rules (rule # rest) w =
     (case rule_validate rule (w\<lparr>calls := calls w @ [rule]\<rparr>) of
        (Inl e, w') \<Rightarrow> (Inl e, w')
      | (Inr ok, w') \<Rightarrow>
          if \<not> ok then (Inr False, LOGGER_error ''Registrasi gagal.'' [] w')
          else run_rules rest w')"

definition RegistrationService_validate ::
    "IValidationRule list \<Rightarrow> world \<Rightarrow> (error + bool) \<times> world" where
  "RegistrationService_validate rules w =
     run_rules rules (LOGGER_info ''=== Menjalankan Validasi Registrasi ==='' [] w)"

section \<open>The sample run of the program\<close>

definition student_data_sample :: student_data where
  "student_data_sample =
     \<lparr>sks = Some 20,
      prasyarat = Some [''Algoritma'', ''Struktur Data''],
      sudah_lulus = Some [''Algoritma''],
      jadwal = Some \<lparr>hari = Some ''Senin'', jam = Some ''08:00''\<rparr>,
      jadwal_terambil = Some [\<lparr>hari = Some ''Senin'', jam = Some ''08:00''\<rparr>]\<rparr>"

definition rules_sample :: "IValidationRule list" where
  "rules_sample = [SksLimitRule 24, PrerequisiteRule, JadwalBentrokRule]"

text \<open>The state in which the program starts: nothing logged, no rule called.\<close>

definition start :: "student_data \<Rightarrow> world" where
  "start d = \<lparr>data = d, logs = [], calls = []\<rparr>"

section \<open>Well-formed records\<close>

text \<open>A record is well formed when it has every key the rules read: the five keys of
  the dictionary, and \<^verbatim>\<open>hari\<close> and \<^verbatim>\<open>jam\<close> in the requested slot and in every
  taken slot.\<close>

definition slot_ok :: "slot \<Rightarrow> bool" where
  "slot_ok s = (hari s \<noteq> None \<and> jam s \<noteq> None)"

definition well_formed :: "student_data \<Rightarrow> bool" where
  "well_formed d =
     (sks d \<noteq> None \<and> prasyarat d \<noteq> None \<and> sudah_lulus d \<noteq> None
      \<and> (case jadwal d of None \<Rightarrow> False | Some jd \<Rightarrow> slot_ok jd)
      \<and> (case jadwal_terambil d of None \<Rightarrow> False | Some items \<Rightarrow> list_all slot_ok items))"

section \<open>Frame and congruence lemmas\<close>

text \<open>Logging appends one record and touches nothing else; a rule changes neither the
  record nor the call trace, and its result depends on the record only.\<close>

lemma LOGGER_simps:
  "data (LOGGER_info m a w) = data w" "calls (LOGGER_info m a w) = calls w"
  "logs (LOGGER_info m a w) = logs w @ [(INFO, m, a)]"
  "data (LOGGER_warning m a w) = data w" "calls (LOGGER_warning m a w) = calls w"
  "logs (LOGGER_warning m a w) = logs w @ [(WARNING, m, a)]"
  "data (LOGGER_error m a w) = data w" "calls (LOGGER_error m a w) = calls w"
  "logs (LOGGER_error m a w) = logs w @ [(ERROR, m, a)]"
  by (simp_all add: LOGGER_info_def LOGGER_warning_def LOGGER_error_def)

lemma SksLimitRule_frame:
  "data (snd (SksLimitRule_validate m w)) = data w \<and> calls (snd (SksLimitRule_validate m w)) = calls w"
  by (simp add: SksLimitRule_validate_def LOGGER_simps split: option.splits)

lemma PrerequisiteRule_frame:
  "data (snd (PrerequisiteRule_validate w)) = data w \<and> calls (snd (PrerequisiteRule_validate w)) = calls w"
  by (simp add: PrerequisiteRule_validate_def LOGGER_simps split: option.splits sum.splits)

lemma JadwalBentrokRule_frame:
  "data (snd (JadwalBentrokRule_validate w)) = data w \<and> calls (snd (JadwalBentrokRule_validate w)) = calls w"
  by (simp add: JadwalBentrokRule_validate_def LOGGER_simps split: option.splits sum.splits)

lemma rule_validate_frame:
  "data (snd (rule_validate r w)) = data w" "calls (snd (rule_validate r w)) = calls w"
  by (cases r; simp add: SksLimitRule_frame PrerequisiteRule_frame JadwalBentrokRule_frame)+

lemma rule_validate_result_cong:
  "data w1 = data w2 \<Longrightarrow> fst (rule_validate r w1) = fst (rule_validate r w2)"
  by (cases r)
     (simp_all add: SksLimitRule_validate_def PrerequisiteRule_validate_def
        JadwalBentrokRule_validate_def split: option.splits sum.splits)


lemma run_rules_frame: "data (snd (run_rules rs w)) = data w"
proof (induction rs arbitrary: w)
  case Nil
  show ?case by (simp add: LOGGER_simps)
next
  case (Cons r rs)
  obtain res w' where rw: "rule_validate r (w\<lparr>calls := calls w @ [r]\<rparr>) = (res, w')"
    by (cases "rule_validate r (w\<lparr>calls := calls w @ [r]\<rparr>)")
  have dw: "data w' = data w"
    using rule_validate_frame(1) [of r "w\<lparr>calls := calls w @ [r]\<rparr>"] rw by simp
  show ?case
  proof (cases res)
    case (Inl e)
    with rw dw show ?thesis by simp
  next
    case (Inr ok)
    with rw dw Cons.IH [of w'] show ?thesis by (simp add: LOGGER_simps)
  qed
qed

lemma run_rules_result_cong:
  "data w1 = data w2 \<Longrightarrow> fst (run_rules rs w1) = fst (run_rules rs w2)"
proof (induction rs arbitrary: w1 w2)
  case Nil
  show ?case by simp
next
  case (Cons r rs)
  let ?v1 = "w1\<lparr>calls := calls w1 @ [r]\<rparr>" and ?v2 = "w2\<lparr>calls := calls w2 @ [r]\<rparr>"
  have same: "fst (rule_validate r ?v1) = fst (rule_validate r ?v2)"
    using Cons.prems by (intro rule_validate_result_cong) simp
  have d: "data (snd (rule_validate r ?v1)) = data (snd (rule_validate r ?v2))"
    using Cons.prems by (simp add: rule_validate_frame)
  from Cons.IH [OF d] same show ?case
    by (cases "rule_validate r ?v1"; cases "rule_validate r ?v2") (auto split: sum.splits)
qed

lemma run_rules_step:
  assumes "fst (rule_validate r w) = Inr True"
  shows "\<exists>w'. (\<forall>rs. run_rules (r # rs) w = run_rules rs w')
            \<and> data w' = data w \<and> calls w' = calls w @ [r]"
proof -
  let ?v = "w\<lparr>calls := calls w @ [r]\<rparr>"
  have "fst (rule_validate r ?v) = Inr True"
    using assms rule_validate_result_cong [of ?v w r] by simp
  then have "\<forall>rs. run_rules (r # rs) w = run_rules rs (snd (rule_validate r ?v))"
    by (cases "rule_validate r ?v") simp
  then show ?thesis
    by (intro exI [of _ "snd (rule_validate r ?v)"]) (simp add: rule_validate_frame)
qed

lemma run_rules_True_iff:
  "fst (run_rules rs w) = Inr True \<longleftrightarrow> (\<forall>r\<in>set rs. fst (rule_validate r w) = Inr True)"
proof (induction rs arbitrary: w)
  case Nil
  show ?case by simp
next
  case (Cons r rs)
  let ?v = "w\<lparr>calls := calls w @ [r]\<rparr>"
  obtain res w' where rw: "rule_validate r ?v = (res, w')"
    by (cases "rule_validate r ?v")
  have res: "fst (rule_validate r w) = res"
    using rule_validate_result_cong [of w ?v r] rw by simp
  have dw: "data w' = data w"
    using rule_validate_frame(1) [of r ?v] rw by simp
  have rest: "\<And>q. fst (rule_validate q w') = fst (rule_validate q w)"
    using dw by (rule rule_validate_result_cong)
  show ?case
  proof (cases res)
    case (Inl e)
    with rw res show ?thesis by simp
  next
    case (Inr ok)
    with rw res Cons.IH [of w'] rest show ?thesis by (cases ok) simp_all
  qed
qed

lemma run_rules_short_circuit:
  assumes "\<forall>p\<in>set pre. fst (rule_validate p w) = Inr True"
    and "fst (rule_validate r w) = Inr False"
  shows "fst (run_rules (pre @ r # post) w) = Inr False
       \<and> calls (snd (run_rules (pre @ r # post) w)) = calls w @ pre @ [r]
       \<and> snd (run_rules (pre @ r # post) w) = snd (run_rules (pre @ [r]) w)"
  using assms
proof (induction pre arbitrary: w)
  case Nil
  let ?v = "w\<lparr>calls := calls w @ [r]\<rparr>"
  have "fst (rule_validate r ?v) = Inr False"
    using Nil.prems(2) rule_validate_result_cong [of ?v w r] by simp
  then show ?case
    by (cases "rule_validate r ?v")
       (use rule_validate_frame(2) [of r ?v] in \<open>simp add: LOGGER_simps\<close>)
next
  case (Cons p pre)
  from Cons.prems(1) have "fst (rule_validate p w) = Inr True" by simp
  from run_rules_step [OF this]
  obtain w' where s: "\<And>rs. run_rules (p # rs) w = run_rules rs w'"
      and d: "data w' = data w" and c: "calls w' = calls w @ [p]"
    by blast
  have same: "\<And>q. fst (rule_validate q w') = fst (rule_validate q w)"
    using d by (rule rule_validate_result_cong)
  have "\<forall>q\<in>set pre. fst (rule_validate q w') = Inr True"
    using Cons.prems(1) same by simp
  moreover have "fst (rule_validate r w') = Inr False"
    using Cons.prems(2) same by simp
  ultimately have ih: "fst (run_rules (pre @ r # post) w') = Inr False
       \<and> calls (snd (run_rules (pre @ r # post) w')) = calls w' @ pre @ [r]
       \<and> snd (run_rules (pre @ r # post) w') = snd (run_rules (pre @ [r]) w')"
    by (rule Cons.IH)
  have e1: "run_rules ((p # pre) @ r # post) w = run_rules (pre @ r # post) w'"
    using s [of "pre @ r # post"] by (simp only: append_Cons)
  have e2: "run_rules ((p # pre) @ [r]) w = run_rules (pre @ [r]) w'"
    using s [of "pre @ [r]"] by (simp only: append_Cons)
  from ih have i1: "fst (run_rules (pre @ r # post) w') = Inr False"
    and i2: "calls (snd (run_rules (pre @ r # post) w')) = calls w' @ pre @ [r]"
    and i3: "snd (run_rules (pre @ r # post) w') = snd (run_rules (pre @ [r]) w')"
    by blast+
  show ?case
    unfolding e1 e2 by (simp add: i1 i2 i3 [symmetric] c)
qed

section \<open>Lemmas on the comprehension and the scan\<close>

text \<open>
  With the key \<^verbatim>\<open>sudah_lulus\<close> present, the comprehension is a filter of the
  prerequisite list. With every taken slot holding both keys, the scan finds a clash
  exactly when one exists; and it leaves at the first clash, whatever follows it.
\<close>

lemma missing_courses_filter:
  "sudah_lulus d = Some passed \<Longrightarrow>
   missing_courses d courses = Inr (filter (\<lambda>course. course \<notin> set passed) courses)"
  by (induction courses) simp_all

lemma bentrok_well_formed:
  "list_all slot_ok items \<Longrightarrow>
   bentrok h j items = Inr (\<exists>item\<in>set items. hari item = Some h \<and> jam item = Some j)"
  by (induction items) (auto simp: slot_ok_def)

lemma bentrok_first_match:
  assumes "list_all slot_ok pre"
    and "\<not> (\<exists>item\<in>set pre. hari item = Some h \<and> jam item = Some j)"
    and "hari m = Some h" and "jam m = Some j"
  shows "bentrok h j (pre @ m # post) = Inr True"
  using assms by (induction pre) (auto simp: slot_ok_def)

lemma JadwalBentrokRule_result:
  assumes "jadwal (data w) = Some jd" and "hari jd = Some h" and "jam jd = Some j"
    and "jadwal_terambil (data w) = Some items" and "bentrok h j items = Inr clash"
  shows "fst (JadwalBentrokRule_validate w) = Inr (\<not> clash)"
  using assms by (simp add: JadwalBentrokRule_validate_def)

lemma rule_validate_returns:
  assumes "well_formed (data w)"
  shows "\<exists>b. fst (rule_validate r w) = Inr b"
proof (cases r)
  case (SksLimitRule limit)
  from assms obtain n where "sks (data w) = Some n"
    by (auto simp: well_formed_def)
  then have "fst (rule_validate r w) = Inr (n \<le> limit)"
    by (simp add: SksLimitRule SksLimitRule_validate_def)
  then show ?thesis ..
next
  case PrerequisiteRule
  from assms obtain ps ls where "prasyarat (data w) = Some ps" "sudah_lulus (data w) = Some ls"
    by (auto simp: well_formed_def)
  then have "fst (rule_validate r w) = Inr (filter (\<lambda>course. course \<notin> set ls) ps = [])"
    by (simp add: PrerequisiteRule PrerequisiteRule_validate_def missing_courses_filter)
  then show ?thesis ..
next
  case JadwalBentrokRule
  from assms obtain jd items where jd: "jadwal (data w) = Some jd" "slot_ok jd"
    and items: "jadwal_terambil (data w) = Some items" "list_all slot_ok items"
    by (auto simp: well_formed_def split: option.splits)
  from jd(2) obtain h j where hj: "hari jd = Some h" "jam jd = Some j"
    by (auto simp: slot_ok_def)
  from JadwalBentrokRule_result [OF jd(1) hj items(1) bentrok_well_formed [OF items(2)]]
  have "fst (rule_validate r w)
      = Inr (\<not> (\<exists>item\<in>set items. hari item = Some h \<and> jam item = Some j))"
    by (simp add: JadwalBentrokRule)
  then show ?thesis ..
qed

lemma run_rules_returns:
  "well_formed (data w) \<Longrightarrow> \<exists>b. fst (run_rules rs w) = Inr b"
proof (induction rs arbitrary: w)
  case Nil
  have "fst (run_rules [] w) = Inr True" by simp
  then show ?case ..
next
  case (Cons r rs)
  let ?v = "w\<lparr>calls := calls w @ [r]\<rparr>"
  have wf: "well_formed (data ?v)" using Cons.prems by simp
  from rule_validate_returns [OF wf] obtain b where b: "fst (rule_validate r ?v) = Inr b" ..
  have "well_formed (data (snd (rule_validate r ?v)))"
    using wf by (simp add: rule_validate_frame)
  from Cons.IH [OF this] b show ?case
    by (cases "rule_validate r ?v") auto
qed

section \<open>The service runs the rules in order and stops at the first failure\<close>

text \<open>
  Claim C1. \<^verbatim>\<open>RegistrationService.validate\<close> returns true if and only if every rule of
  the sequence returns true on the record. When the rules before some rule all return
  true and that rule returns false, the service returns false, the rules it has called are
  exactly those up to and including that rule, in order, and the whole outcome (result,
  log and calls) is that of the sequence cut after that rule: no later rule is invoked.
  On a well-formed record every rule returns a boolean (claim C7), so the rule in question
  is the first one that returns false.
\<close>

theorem validate_all_or_first_failure:
  "(fst (RegistrationService_validate rules w) = Inr True
      \<longleftrightarrow> (\<forall>rule\<in>set rules. fst (rule_validate rule w) = Inr True))
   \<and> (\<forall>pre rule post.
        rules = pre @ rule # post
        \<and> (\<forall>p\<in>set pre. fst (rule_validate p w) = Inr True)
        \<and> fst (rule_validate rule w) = Inr False
        \<longrightarrow> fst (RegistrationService_validate rules w) = Inr False
          \<and> calls (snd (RegistrationService_validate rules w)) = calls w @ pre @ [rule]
          \<and> RegistrationService_validate rules w
              = RegistrationService_validate (pre @ [rule]) w)"
proof -
  define v where "v = LOGGER_info ''=== Menjalankan Validasi Registrasi ==='' [] w"
  have dv: "data v = data w" and cv: "calls v = calls w"
    by (simp_all add: v_def LOGGER_simps)
  have same: "\<And>q. fst (rule_validate q v) = fst (rule_validate q w)"
    using dv by (rule rule_validate_result_cong)
  have run: "\<And>rs. RegistrationService_validate rs w = run_rules rs v"
    by (simp add: RegistrationService_validate_def v_def)
  have all: "fst (RegistrationService_validate rules w) = Inr True
      \<longleftrightarrow> (\<forall>rule\<in>set rules. fst (rule_validate rule w) = Inr True)"
    by (simp add: run run_rules_True_iff same)
  have first: "fst (RegistrationService_validate rules w) = Inr False
          \<and> calls (snd (RegistrationService_validate rules w)) = calls w @ pre @ [rule]
          \<and> RegistrationService_validate rules w
              = RegistrationService_validate (pre @ [rule]) w"
    if split: "rules = pre @ rule # post"
      and pre: "\<forall>p\<in>set pre. fst (rule_validate p w) = Inr True"
      and fails: "fst (rule_validate rule w) = Inr False"
    for pre rule post
  proof -
    have p: "\<forall>p\<in>set pre. fst (rule_validate p v) = Inr True"
      using pre by (simp add: same)
    have f: "fst (rule_validate rule v) = Inr False"
      using fails by (simp add: same)
    have long: "fst (run_rules (pre @ rule # post) v) = Inr False"
      "calls (snd (run_rules (pre @ rule # post) v)) = calls v @ pre @ [rule]"
      "snd (run_rules (pre @ rule # post) v) = snd (run_rules (pre @ [rule]) v)"
      using run_rules_short_circuit [OF p f, of post] by blast+
    have short: "fst (run_rules (pre @ [rule]) v) = Inr False"
      using run_rules_short_circuit [OF p f, of "[]"] by blast
    have "run_rules (pre @ rule # post) v = run_rules (pre @ [rule]) v"
      using long(1,3) short by (simp add: prod_eq_iff)
    with long show ?thesis
      by (simp add: run split cv)
  qed
  from all first show ?thesis by blast
qed

theorem validate_all_or_first_failure_witness:
  "rules_sample = [SksLimitRule 24] @ PrerequisiteRule # [JadwalBentrokRule]
   \<and> fst (rule_validate (SksLimitRule 24) (start student_data_sample)) = Inr True
   \<and> fst (rule_validate PrerequisiteRule (start student_data_sample)) = Inr False
   \<and> fst (RegistrationService_validate rules_sample (start student_data_sample)) = Inr False
   \<and> calls (snd (RegistrationService_validate rules_sample (start student_data_sample)))
       = [SksLimitRule 24, PrerequisiteRule]
   \<and> fst (RegistrationService_validate [SksLimitRule 24] (start student_data_sample)) = Inr True"
proof -
  let ?w = "start student_data_sample"
  have s: "rules_sample = [SksLimitRule 24] @ PrerequisiteRule # [JadwalBentrokRule]"
    by (simp add: rules_sample_def)
  have p: "\<forall>p\<in>set [SksLimitRule 24]. fst (rule_validate p ?w) = Inr True"
    by (simp add: SksLimitRule_validate_def start_def student_data_sample_def)
  have f: "fst (rule_validate PrerequisiteRule ?w) = Inr False"
    by (simp add: PrerequisiteRule_validate_def start_def student_data_sample_def)
  have "fst (RegistrationService_validate rules_sample ?w) = Inr False
      \<and> calls (snd (RegistrationService_validate rules_sample ?w))
          = calls ?w @ [SksLimitRule 24] @ [PrerequisiteRule]"
    using validate_all_or_first_failure [of rules_sample ?w] s p f by blast
  moreover have "fst (RegistrationService_validate [SksLimitRule 24] ?w) = Inr True"
    using validate_all_or_first_failure [of "[SksLimitRule 24]" ?w] p by blast
  ultimately show ?thesis
    using s p f by (simp add: start_def)
qed

section \<open>The sample run\<close>

text \<open>
  Claim C2. On the sample record with the rules
  \<^verbatim>\<open>[SksLimitRule(max_sks=24), PrerequisiteRule(), JadwalBentrokRule()]\<close> the service
  returns false. \<^verbatim>\<open>SksLimitRule\<close> is called once and returns true,
  \<^verbatim>\<open>PrerequisiteRule\<close> is called once and returns false with the missing list
  \<^verbatim>\<open>["Struktur Data"]\<close>, and \<^verbatim>\<open>JadwalBentrokRule\<close> is never called: the log has
  the banner, one record of each of the two rules and the failure record.
\<close>

theorem sample_run:
  "RegistrationService_validate rules_sample (start student_data_sample)
     = (Inr False,
        \<lparr>data = student_data_sample,
         logs = [(INFO, ''=== Menjalankan Validasi Registrasi ==='', []),
                 (INFO, ''SKS %s tidak melebihi batas %s.'', [IntArg 20, IntArg 24]),
                 (WARNING, ''Prasyarat belum terpenuhi: %s'', [ListArg [''Struktur Data'']]),
                 (ERROR, ''Registrasi gagal.'', [])],
         calls = [SksLimitRule 24, PrerequisiteRule]\<rparr>)
   \<and> fst (rule_validate (SksLimitRule 24) (start student_data_sample)) = Inr True
   \<and> fst (rule_validate PrerequisiteRule (start student_data_sample)) = Inr False
   \<and> missing_courses student_data_sample [''Algoritma'', ''Struktur Data'']
       = Inr [''Struktur Data'']
   \<and> count_list (calls (snd (RegistrationService_validate rules_sample
         (start student_data_sample)))) (SksLimitRule 24) = 1
   \<and> count_list (calls (snd (RegistrationService_validate rules_sample
         (start student_data_sample)))) PrerequisiteRule = 1
   \<and> count_list (calls (snd (RegistrationService_validate rules_sample
         (start student_data_sample)))) JadwalBentrokRule = 0"
  by (simp add: RegistrationService_validate_def rules_sample_def start_def
      student_data_sample_def SksLimitRule_validate_def PrerequisiteRule_validate_def
      LOGGER_info_def LOGGER_warning_def LOGGER_error_def)

section \<open>The prerequisite rule\<close>

text \<open>
  Claim C3. On a record holding the prerequisites and the completed courses,
  \<^verbatim>\<open>PrerequisiteRule.validate\<close> returns true if and only if the set difference
  prerequisites - completedCourses is empty, that is, if and only if every prerequisite is
  a completed course; when it returns false, the list it logs has, as a set, exactly the
  elements of that difference. A record with an empty prerequisite list passes.
\<close>

theorem prerequisite_set_difference:
  "(prasyarat (data w) = Some prerequisites \<and> sudah_lulus (data w) = Some completedCourses
      \<longrightarrow> fst (PrerequisiteRule_validate w)
            = Inr (set prerequisites - set completedCourses = {})
        \<and> fst (PrerequisiteRule_validate w) = Inr (set prerequisites \<subseteq> set completedCourses)
        \<and> (fst (PrerequisiteRule_validate w) = Inr False
            \<longrightarrow> (\<exists>missing.
                  logs (snd (PrerequisiteRule_validate w))
                    = logs w @ [(WARNING, ''Prasyarat belum terpenuhi: %s'', [ListArg missing])]
                  \<and> set missing = set prerequisites - set completedCourses)))
   \<and> (prasyarat (data w) = Some [] \<longrightarrow> fst (PrerequisiteRule_validate w) = Inr True)"
proof -
  have empty: "fst (PrerequisiteRule_validate w) = Inr True" if "prasyarat (data w) = Some []"
    using that by (simp add: PrerequisiteRule_validate_def)
  have main: "fst (PrerequisiteRule_validate w)
            = Inr (set prerequisites - set completedCourses = {})
        \<and> fst (PrerequisiteRule_validate w) = Inr (set prerequisites \<subseteq> set completedCourses)
        \<and> (fst (PrerequisiteRule_validate w) = Inr False
            \<longrightarrow> (\<exists>missing.
                  logs (snd (PrerequisiteRule_validate w))
                    = logs w @ [(WARNING, ''Prasyarat belum terpenuhi: %s'', [ListArg missing])]
                  \<and> set missing = set prerequisites - set completedCourses))"
    if p: "prasyarat (data w) = Some prerequisites"
      and c: "sudah_lulus (data w) = Some completedCourses"
  proof -
    let ?missing = "filter (\<lambda>course. course \<notin> set completedCourses) prerequisites"
    have m: "missing_courses (data w) prerequisites = Inr ?missing"
      using c by (rule missing_courses_filter)
    have s: "set ?missing = set prerequisites - set completedCourses"
      by auto
    have e: "?missing = [] \<longleftrightarrow> set prerequisites - set completedCourses = {}"
      using s by (metis set_empty)
    have r: "fst (PrerequisiteRule_validate w) = Inr (?missing = [])"
      by (simp add: PrerequisiteRule_validate_def p m)
    have l: "logs (snd (PrerequisiteRule_validate w))
        = logs w @ [(WARNING, ''Prasyarat belum terpenuhi: %s'', [ListArg ?missing])]"
      if "?missing \<noteq> []"
      using that by (simp add: PrerequisiteRule_validate_def p m LOGGER_simps)
    have sub: "set prerequisites - set completedCourses = {}
        \<longleftrightarrow> set prerequisites \<subseteq> set completedCourses"
      by blast
    show ?thesis
      using r e l s sub by auto
  qed
  from empty main show ?thesis by blast
qed

theorem prerequisite_set_difference_witness:
  "prasyarat (data (start student_data_sample)) = Some [''Algoritma'', ''Struktur Data'']
   \<and> sudah_lulus (data (start student_data_sample)) = Some [''Algoritma'']
   \<and> fst (PrerequisiteRule_validate (start student_data_sample)) = Inr False
   \<and> (\<exists>missing.
        logs (snd (PrerequisiteRule_validate (start student_data_sample)))
          = [(WARNING, ''Prasyarat belum terpenuhi: %s'', [ListArg missing])]
        \<and> set missing = {''Struktur Data''})
   \<and> prasyarat (data (start (student_data_sample\<lparr>prasyarat := Some []\<rparr>))) = Some []
   \<and> fst (PrerequisiteRule_validate (start (student_data_sample\<lparr>prasyarat := Some []\<rparr>)))
       = Inr True"
proof -
  let ?w = "start student_data_sample"
  let ?v = "start (student_data_sample\<lparr>prasyarat := Some []\<rparr>)"
  have p: "prasyarat (data ?w) = Some [''Algoritma'', ''Struktur Data'']"
    and c: "sudah_lulus (data ?w) = Some [''Algoritma'']"
    and e: "prasyarat (data ?v) = Some []"
    by (simp_all add: start_def student_data_sample_def)
  have d: "set [''Algoritma'', ''Struktur Data''] - set [''Algoritma''] = {''Struktur Data''}"
    by auto
  from prerequisite_set_difference [of ?w "[''Algoritma'', ''Struktur Data'']" "[''Algoritma'']"]
  have r: "fst (PrerequisiteRule_validate ?w)
      = Inr (set [''Algoritma'', ''Struktur Data''] - set [''Algoritma''] = {})"
    and l: "fst (PrerequisiteRule_validate ?w) = Inr False \<longrightarrow>
      (\<exists>missing. logs (snd (PrerequisiteRule_validate ?w))
          = logs ?w @ [(WARNING, ''Prasyarat belum terpenuhi: %s'', [ListArg missing])]
        \<and> set missing = set [''Algoritma'', ''Struktur Data''] - set [''Algoritma''])"
    using p c by blast+
  have f: "fst (PrerequisiteRule_validate ?w) = Inr False"
    using r unfolding d by simp
  have lw: "logs ?w = []" by (simp add: start_def)
  from l f have l': "\<exists>missing. logs (snd (PrerequisiteRule_validate ?w))
          = [(WARNING, ''Prasyarat belum terpenuhi: %s'', [ListArg missing])]
        \<and> set missing = {''Struktur Data''}"
    unfolding d lw by simp
  have t: "fst (PrerequisiteRule_validate ?v) = Inr True"
    using prerequisite_set_difference [of ?v] e by blast
  from p c f l' e t show ?thesis by blast
qed

text \<open>
  Claim C10. The missing collection that \<^verbatim>\<open>PrerequisiteRule.validate\<close> computes is a
  list: the prerequisites that are not completed courses, in the order of the prerequisite
  list and with its duplicates kept, that is, the prerequisite list filtered. The whole
  outcome of the method is fixed by this list: when it is empty the method returns true
  and logs the confirmation; otherwise it returns false and logs one warning whose
  argument is this very list.
\<close>

theorem missing_is_ordered_filter:
  "prasyarat (data w) = Some prerequisites \<and> sudah_lulus (data w) = Some completedCourses
   \<longrightarrow> missing_courses (data w) prerequisites
         = Inr (filter (\<lambda>course. course \<notin> set completedCourses) prerequisites)
     \<and> PrerequisiteRule_validate w
         = (if filter (\<lambda>course. course \<notin> set completedCourses) prerequisites = []
            then (Inr True,
                  w\<lparr>logs := logs w @ [(INFO, ''Semua prasyarat telah terpenuhi.'', [])]\<rparr>)
            else (Inr False,
                  w\<lparr>logs := logs w @ [(WARNING, ''Prasyarat belum terpenuhi: %s'',
                    [ListArg (filter (\<lambda>course. course \<notin> set completedCourses)
                       prerequisites)])]\<rparr>))"
proof (intro impI, elim conjE)
  assume p: "prasyarat (data w) = Some prerequisites"
    and c: "sudah_lulus (data w) = Some completedCourses"
  let ?missing = "filter (\<lambda>course. course \<notin> set completedCourses) prerequisites"
  have m: "missing_courses (data w) prerequisites = Inr ?missing"
    using c by (rule missing_courses_filter)
  have v: "PrerequisiteRule_validate w
      = (if ?missing = []
         then (Inr True, w\<lparr>logs := logs w @ [(INFO, ''Semua prasyarat telah terpenuhi.'', [])]\<rparr>)
         else (Inr False, w\<lparr>logs := logs w @ [(WARNING, ''Prasyarat belum terpenuhi: %s'',
                 [ListArg ?missing])]\<rparr>))"
    by (simp add: PrerequisiteRule_validate_def p m LOGGER_info_def LOGGER_warning_def)
  from m v show "missing_courses (data w) prerequisites = Inr ?missing
     \<and> PrerequisiteRule_validate w
         = (if ?missing = []
            then (Inr True,
                  w\<lparr>logs := logs w @ [(INFO, ''Semua prasyarat telah terpenuhi.'', [])]\<rparr>)
            else (Inr False,
                  w\<lparr>logs := logs w @ [(WARNING, ''Prasyarat belum terpenuhi: %s'',
                    [ListArg ?missing])]\<rparr>))" ..
qed

theorem missing_is_ordered_filter_witness:
  "prasyarat (data (start (student_data_sample\<lparr>prasyarat :=
       Some [''C'', ''Algoritma'', ''B'', ''B'']\<rparr>))) = Some [''C'', ''Algoritma'', ''B'', ''B'']
   \<and> sudah_lulus (data (start (student_data_sample\<lparr>prasyarat :=
       Some [''C'', ''Algoritma'', ''B'', ''B'']\<rparr>))) = Some [''Algoritma'']
   \<and> missing_courses (data (start (student_data_sample\<lparr>prasyarat :=
       Some [''C'', ''Algoritma'', ''B'', ''B'']\<rparr>))) [''C'', ''Algoritma'', ''B'', ''B'']
       = Inr [''C'', ''B'', ''B'']
   \<and> PrerequisiteRule_validate (start (student_data_sample\<lparr>prasyarat :=
       Some [''C'', ''Algoritma'', ''B'', ''B'']\<rparr>))
       = (Inr False,
          \<lparr>data = student_data_sample\<lparr>prasyarat := Some [''C'', ''Algoritma'', ''B'', ''B'']\<rparr>,
           logs = [(WARNING, ''Prasyarat belum terpenuhi: %s'', [ListArg [''C'', ''B'', ''B'']])],
           calls = []\<rparr>)
   \<and> PrerequisiteRule_validate (start (student_data_sample\<lparr>prasyarat :=
       Some [''Algoritma'', ''Algoritma'']\<rparr>))
       = (Inr True,
          \<lparr>data = student_data_sample\<lparr>prasyarat := Some [''Algoritma'', ''Algoritma'']\<rparr>,
           logs = [(INFO, ''Semua prasyarat telah terpenuhi.'', [])],
           calls = []\<rparr>)"
proof -
  let ?ps = "[''C'', ''Algoritma'', ''B'', ''B'']"
  let ?qs = "[''Algoritma'', ''Algoritma'']"
  let ?w = "start (student_data_sample\<lparr>prasyarat := Some ?ps\<rparr>)"
  let ?v = "start (student_data_sample\<lparr>prasyarat := Some ?qs\<rparr>)"
  have p: "prasyarat (data ?w) = Some ?ps" and c: "sudah_lulus (data ?w) = Some [''Algoritma'']"
    and q: "prasyarat (data ?v) = Some ?qs" and d: "sudah_lulus (data ?v) = Some [''Algoritma'']"
    by (simp_all add: start_def student_data_sample_def)
  have f: "filter (\<lambda>course. course \<notin> set [''Algoritma'']) ?ps = [''C'', ''B'', ''B'']"
    and g: "filter (\<lambda>course. course \<notin> set [''Algoritma'']) ?qs = []"
    by simp_all
  from missing_is_ordered_filter [of ?w ?ps "[''Algoritma'']"] p c
  have "missing_courses (data ?w) ?ps
        = Inr (filter (\<lambda>course. course \<notin> set [''Algoritma'']) ?ps)"
    and "PrerequisiteRule_validate ?w
        = (if filter (\<lambda>course. course \<notin> set [''Algoritma'']) ?ps = []
           then (Inr True, ?w\<lparr>logs := logs ?w @ [(INFO, ''Semua prasyarat telah terpenuhi.'', [])]\<rparr>)
           else (Inr False, ?w\<lparr>logs := logs ?w @ [(WARNING, ''Prasyarat belum terpenuhi: %s'',
                   [ListArg (filter (\<lambda>course. course \<notin> set [''Algoritma'']) ?ps)])]\<rparr>))"
    by blast+
  then have m1: "missing_courses (data ?w) ?ps = Inr [''C'', ''B'', ''B'']"
    and r1: "PrerequisiteRule_validate ?w
        = (Inr False,
           \<lparr>data = student_data_sample\<lparr>prasyarat := Some ?ps\<rparr>,
            logs = [(WARNING, ''Prasyarat belum terpenuhi: %s'', [ListArg [''C'', ''B'', ''B'']])],
            calls = []\<rparr>)"
    unfolding f by (simp_all add: start_def)
  from missing_is_ordered_filter [of ?v ?qs "[''Algoritma'']"] q d
  have "PrerequisiteRule_validate ?v
        = (if filter (\<lambda>course. course \<notin> set [''Algoritma'']) ?qs = []
           then (Inr True, ?v\<lparr>logs := logs ?v @ [(INFO, ''Semua prasyarat telah terpenuhi.'', [])]\<rparr>)
           else (Inr False, ?v\<lparr>logs := logs ?v @ [(WARNING, ''Prasyarat belum terpenuhi: %s'',
                   [ListArg (filter (\<lambda>course. course \<notin> set [''Algoritma'']) ?qs)])]\<rparr>))"
    by blast
  then have r2: "PrerequisiteRule_validate ?v
        = (Inr True,
           \<lparr>data = student_data_sample\<lparr>prasyarat := Some ?qs\<rparr>,
            logs = [(INFO, ''Semua prasyarat telah terpenuhi.'', [])],
            calls = []\<rparr>)"
    unfolding g by (simp add: start_def)
  from p c m1 r1 r2 show ?thesis by blast
qed

section \<open>The credit limit rule\<close>

text \<open>
  Claim C4. For every limit fixed at construction and every record holding its credit
  hours, \<^verbatim>\<open>SksLimitRule(maxCredits).validate\<close> returns true when the credit hours are
  at most the limit and false when they exceed it; at the boundary it returns true.
\<close>

theorem sks_limit:
  "sks (data w) = Some n \<longrightarrow>
     fst (rule_validate (SksLimitRule maxCredits) w) = Inr (n \<le> maxCredits)
     \<and> (n \<le> maxCredits \<longrightarrow> fst (rule_validate (SksLimitRule maxCredits) w) = Inr True)
     \<and> (n > maxCredits \<longrightarrow> fst (rule_validate (SksLimitRule maxCredits) w) = Inr False)
     \<and> (n = maxCredits \<longrightarrow> fst (rule_validate (SksLimitRule maxCredits) w) = Inr True)"
  by (simp add: SksLimitRule_validate_def)


theorem sks_limit_witness:
  "sks (data (start student_data_sample)) = Some 20
   \<and> fst (rule_validate (SksLimitRule 24) (start student_data_sample)) = Inr True
   \<and> fst (rule_validate (SksLimitRule 20) (start student_data_sample)) = Inr True
   \<and> fst (rule_validate (SksLimitRule 19) (start student_data_sample)) = Inr False"
proof -
  let ?w = "start student_data_sample"
  have n: "sks (data ?w) = Some 20"
    by (simp add: start_def student_data_sample_def)
  have "fst (rule_validate (SksLimitRule 24) ?w) = Inr True"
    using sks_limit [of ?w 20 24] n by simp
  moreover have "fst (rule_validate (SksLimitRule 20) ?w) = Inr True"
    using sks_limit [of ?w 20 20] n by simp
  moreover have "fst (rule_validate (SksLimitRule 19) ?w) = Inr False"
    using sks_limit [of ?w 20 19] n by simp
  ultimately show ?thesis using n by blast
qed

section \<open>The schedule rule\<close>

text \<open>
  Claim C5. On a record holding the requested slot (with its day and time) and the
  taken slots: when every taken slot holds a day and a time,
  \<^verbatim>\<open>JadwalBentrokRule.validate\<close> returns false if and only if some taken slot has the
  day and the time of the requested slot, and true otherwise. The scan stops at the first
  such slot: the result is false whatever follows it, even a slot that holds no key. With
  no taken slot the rule returns true.
\<close>

theorem schedule_conflict:
  "jadwal (data w) = Some requestedSlot \<and> hari requestedSlot = Some h
     \<and> jam requestedSlot = Some j \<and> jadwal_terambil (data w) = Some takenSlots
   \<longrightarrow> (list_all slot_ok takenSlots
          \<longrightarrow> fst (JadwalBentrokRule_validate w)
               = Inr (\<not> (\<exists>item\<in>set takenSlots. hari item = Some h \<and> jam item = Some j)))
     \<and> (\<forall>pre m post.
          takenSlots = pre @ m # post \<and> list_all slot_ok pre
          \<and> \<not> (\<exists>item\<in>set pre. hari item = Some h \<and> jam item = Some j)
          \<and> hari m = Some h \<and> jam m = Some j
          \<longrightarrow> fst (JadwalBentrokRule_validate w) = Inr False)
     \<and> (takenSlots = [] \<longrightarrow> fst (JadwalBentrokRule_validate w) = Inr True)"
proof (intro impI, elim conjE)
  assume jd: "jadwal (data w) = Some requestedSlot" and h: "hari requestedSlot = Some h"
    and j: "jam requestedSlot = Some j" and items: "jadwal_terambil (data w) = Some takenSlots"
  note result = JadwalBentrokRule_result [OF jd h j items]
  have a: "fst (JadwalBentrokRule_validate w)
      = Inr (\<not> (\<exists>item\<in>set takenSlots. hari item = Some h \<and> jam item = Some j))"
    if "list_all slot_ok takenSlots"
    using result [OF bentrok_well_formed [OF that]] .
  have b: "fst (JadwalBentrokRule_validate w) = Inr False"
    if "takenSlots = pre @ m # post" "list_all slot_ok pre"
      "\<not> (\<exists>item\<in>set pre. hari item = Some h \<and> jam item = Some j)"
      "hari m = Some h" "jam m = Some j" for pre m post
    using result [of True] bentrok_first_match [OF that(2-5), of post] that(1) by simp
  have c: "fst (JadwalBentrokRule_validate w) = Inr True" if "takenSlots = []"
    using result [of False] that by simp
  from a b c
  show "(list_all slot_ok takenSlots
          \<longrightarrow> fst (JadwalBentrokRule_validate w)
               = Inr (\<not> (\<exists>item\<in>set takenSlots. hari item = Some h \<and> jam item = Some j)))
     \<and> (\<forall>pre m post.
          takenSlots = pre @ m # post \<and> list_all slot_ok pre
          \<and> \<not> (\<exists>item\<in>set pre. hari item = Some h \<and> jam item = Some j)
          \<and> hari m = Some h \<and> jam m = Some j
          \<longrightarrow> fst (JadwalBentrokRule_validate w) = Inr False)
     \<and> (takenSlots = [] \<longrightarrow> fst (JadwalBentrokRule_validate w) = Inr True)"
    by blast
qed


theorem schedule_conflict_witness:
  "jadwal (data (start (student_data_sample\<lparr>jadwal_terambil :=
       Some [\<lparr>hari = Some ''Selasa'', jam = Some ''08:00''\<rparr>,
             \<lparr>hari = Some ''Senin'', jam = Some ''08:00''\<rparr>,
             \<lparr>hari = None, jam = None\<rparr>]\<rparr>)))
     = Some \<lparr>hari = Some ''Senin'', jam = Some ''08:00''\<rparr>
   \<and> fst (JadwalBentrokRule_validate (start (student_data_sample\<lparr>jadwal_terambil :=
       Some [\<lparr>hari = Some ''Selasa'', jam = Some ''08:00''\<rparr>,
             \<lparr>hari = Some ''Senin'', jam = Some ''08:00''\<rparr>,
             \<lparr>hari = None, jam = None\<rparr>]\<rparr>))) = Inr False
   \<and> fst (JadwalBentrokRule_validate (start student_data_sample)) = Inr False
   \<and> fst (JadwalBentrokRule_validate (start (student_data_sample\<lparr>jadwal_terambil :=
       Some [\<lparr>hari = Some ''Selasa'', jam = Some ''08:00''\<rparr>]\<rparr>))) = Inr True
   \<and> fst (JadwalBentrokRule_validate (start (student_data_sample\<lparr>jadwal_terambil :=
       Some []\<rparr>))) = Inr True"
proof -
  let ?req = "\<lparr>hari = Some ''Senin'', jam = Some ''08:00''\<rparr>"
  let ?other = "\<lparr>hari = Some ''Selasa'', jam = Some ''08:00''\<rparr>"
  let ?bad = "\<lparr>hari = None, jam = None\<rparr> :: slot"
  let ?w1 = "start (student_data_sample\<lparr>jadwal_terambil := Some [?other, ?req, ?bad]\<rparr>)"
  let ?w2 = "start student_data_sample"
  let ?w3 = "start (student_data_sample\<lparr>jadwal_terambil := Some [?other]\<rparr>)"
  let ?w4 = "start (student_data_sample\<lparr>jadwal_terambil := Some []\<rparr>)"
  have h: "hari ?req = Some ''Senin''" and j: "jam ?req = Some ''08:00''"
    by simp_all
  have r1: "jadwal (data ?w1) = Some ?req" and t1: "jadwal_terambil (data ?w1) = Some [?other, ?req, ?bad]"
    and r2: "jadwal (data ?w2) = Some ?req" and t2: "jadwal_terambil (data ?w2) = Some [?req]"
    and r3: "jadwal (data ?w3) = Some ?req" and t3: "jadwal_terambil (data ?w3) = Some [?other]"
    and r4: "jadwal (data ?w4) = Some ?req" and t4: "jadwal_terambil (data ?w4) = Some []"
    by (simp_all add: start_def student_data_sample_def)
  have first: "[?other, ?req, ?bad] = [?other] @ ?req # [?bad] \<and> list_all slot_ok [?other]
      \<and> \<not> (\<exists>item\<in>set [?other]. hari item = Some ''Senin'' \<and> jam item = Some ''08:00'')
      \<and> hari ?req = Some ''Senin'' \<and> jam ?req = Some ''08:00''"
    by (simp add: slot_ok_def)
  have c1: "fst (JadwalBentrokRule_validate ?w1) = Inr False"
    using schedule_conflict [of ?w1 ?req "''Senin''" "''08:00''" "[?other, ?req, ?bad]"]
      r1 h j t1 first by blast
  have ok2: "list_all slot_ok [?req]" and ok3: "list_all slot_ok [?other]"
    by (simp_all add: slot_ok_def)
  have "fst (JadwalBentrokRule_validate ?w2)
      = Inr (\<not> (\<exists>item\<in>set [?req]. hari item = Some ''Senin'' \<and> jam item = Some ''08:00''))"
    using schedule_conflict [of ?w2 ?req "''Senin''" "''08:00''" "[?req]"] r2 h j t2 ok2
    by blast
  then have c2: "fst (JadwalBentrokRule_validate ?w2) = Inr False"
    by simp
  have "fst (JadwalBentrokRule_validate ?w3)
      = Inr (\<not> (\<exists>item\<in>set [?other]. hari item = Some ''Senin'' \<and> jam item = Some ''08:00''))"
    using schedule_conflict [of ?w3 ?req "''Senin''" "''08:00''" "[?other]"] r3 h j t3 ok3
    by blast
  then have c3: "fst (JadwalBentrokRule_validate ?w3) = Inr True"
    by simp
  have c4: "fst (JadwalBentrokRule_validate ?w4) = Inr True"
    using schedule_conflict [of ?w4 ?req "''Senin''" "''08:00''" "[]"] r4 h j t4 by blast
  from r1 c1 c2 c3 c4 show ?thesis by blast
qed

section \<open>The record is only read\<close>

text \<open>
  Claim C6. After \<^verbatim>\<open>validate\<close> of any of the three rules, and after
  \<^verbatim>\<open>RegistrationService.validate\<close> with any sequence of them, the record is the record
  before the call, so each of its fields has the value it had. This holds also when the
  call raises.
\<close>

theorem record_unchanged:
  "data (snd (rule_validate rule w)) = data w
   \<and> data (snd (RegistrationService_validate rules w)) = data w"
  by (simp add: rule_validate_frame RegistrationService_validate_def run_rules_frame
      LOGGER_simps)

section \<open>No exception on a well-formed record\<close>

text \<open>
  Claim C7. On a well-formed record every rule, and the service with every sequence of
  rules, returns a boolean: no call raises.
\<close>

theorem no_exception_on_well_formed:
  "well_formed (data w)
   \<longrightarrow> (\<exists>b. fst (rule_validate rule w) = Inr b)
     \<and> (\<exists>b. fst (RegistrationService_validate rules w) = Inr b)"
proof
  assume wf: "well_formed (data w)"
  have "well_formed (data (LOGGER_info ''=== Menjalankan Validasi Registrasi ==='' [] w))"
    using wf by (simp add: LOGGER_simps)
  then have "\<exists>b. fst (RegistrationService_validate rules w) = Inr b"
    unfolding RegistrationService_validate_def by (rule run_rules_returns)
  with rule_validate_returns [OF wf, of rule]
  show "(\<exists>b. fst (rule_validate rule w) = Inr b)
     \<and> (\<exists>b. fst (RegistrationService_validate rules w) = Inr b)" ..
qed

theorem no_exception_on_well_formed_witness:
  "well_formed (data (start student_data_sample))
   \<and> (\<exists>b. fst (rule_validate JadwalBentrokRule (start student_data_sample)) = Inr b)
   \<and> (\<exists>b. fst (RegistrationService_validate rules_sample (start student_data_sample)) = Inr b)"
proof -
  have wf: "well_formed (data (start student_data_sample))"
    by (simp add: well_formed_def slot_ok_def start_def student_data_sample_def)
  with no_exception_on_well_formed [of "start student_data_sample" JadwalBentrokRule rules_sample]
  show ?thesis by blast
qed

section \<open>Repeated runs\<close>

text \<open>
  Claim C8. A second call of \<^verbatim>\<open>RegistrationService.validate\<close> with the same rules,
  in the state the first call leaves, returns what the first call returned; the result
  is that of a run from the start state on the same record, so it depends on the rules
  and the record only, and on nothing a former call has left.
\<close>

theorem validate_repeatable:
  "fst (RegistrationService_validate rules (snd (RegistrationService_validate rules w)))
     = fst (RegistrationService_validate rules w)
   \<and> fst (RegistrationService_validate rules w)
     = fst (RegistrationService_validate rules (start (data w)))"
proof -
  have cong: "fst (RegistrationService_validate rules a)
      = fst (RegistrationService_validate rules b)" if "data a = data b" for a b
    unfolding RegistrationService_validate_def
    by (rule run_rules_result_cong) (simp add: LOGGER_simps that)
  have "data (snd (RegistrationService_validate rules w)) = data w"
    by (simp add: RegistrationService_validate_def run_rules_frame LOGGER_simps)
  then have "fst (RegistrationService_validate rules (snd (RegistrationService_validate rules w)))
     = fst (RegistrationService_validate rules w)"
    by (rule cong)
  moreover have "fst (RegistrationService_validate rules w)
     = fst (RegistrationService_validate rules (start (data w)))"
    by (rule cong) (simp add: start_def)
  ultimately show ?thesis by simp
qed

section \<open>No rules\<close>

text \<open>
  Claim C9. With an empty rule sequence the service returns true on every record: it
  logs the banner and the success message, and calls no rule.
\<close>

theorem empty_rules_pass:
  "RegistrationService_validate [] w
     = (Inr True,
        w\<lparr>logs := logs w @ [(INFO, ''=== Menjalankan Validasi Registrasi ==='', []),
                             (INFO, ''Registrasi berhasil.'', [])]\<rparr>)"
  by (simp add: RegistrationService_validate_def LOGGER_info_def)

end
